theory Spec2Isabelle
  imports Main
begin

section \<open>The style mapping of \<open>DefaultAnsiStyle\<close>\<close>

text \<open>
  The source, \<^verbatim>\<open>docs/src/style.py\<close>:
  \<^verbatim>\<open>
  class DefaultAnsiStyle(DefaultStyle):
      styles = dict(DefaultStyle.styles)
      styles.update(color_tokens())
  \<close>
  The class body builds a new dictionary from the base style's dictionary and then
  updates it in place with the dictionary of ANSI colour tokens. Both steps are
  operations of Python's built-in \<open>dict\<close>. The two dictionaries that are read come from
  libraries outside this repository and are parameters of the model.
\<close>

subsection \<open>Dictionaries\<close>

text \<open>
  A Python dictionary keeps its items in insertion order and holds each key once. It is
  modelled by the list of its items in that order; the keys of a dictionary are distinct.
  Keys and values are arbitrary: the code never inspects them.
\<close>

type_synonym ('k, 'v) items = "('k \<times> 'v) list"

datatype error = TypeError | AttributeError | KeyError

text \<open>\<open>d.keys()\<close>: the keys in iteration order.\<close>

definition dict_keys :: "('k, 'v) items \<Rightarrow> 'k list" where
  "dict_keys d = map fst d"

text \<open>\<open>d[k]\<close>: the value stored under \<open>k\<close>; a missing key raises \<open>KeyError\<close>.\<close>

definition getitem :: "('k, 'v) items \<Rightarrow> 'k \<Rightarrow> error + 'v" where
  "getitem d k = (case map_of d k of None \<Rightarrow> Inl KeyError | Some v \<Rightarrow> Inr v)"

text \<open>
  \<open>d[k] = v\<close>: a key that is present keeps its position (and the key object already
  stored) and takes the new value; a new key goes to the end.
\<close>

fun setitem :: "('k, 'v) items \<Rightarrow> 'k \<Rightarrow> 'v \<Rightarrow> ('k, 'v) items" where
  "setitem [] k v = [(k, v)]"
| "setitem ((k', v') # d) k v =
     (if k' = k then (k', v) # d else (k', v') # setitem d k v)"

text \<open>
  \<open>d.update(other)\<close> for a dictionary \<open>other\<close>: every item of \<open>other\<close>, in its
  iteration order, is stored into \<open>d\<close>.
\<close>

fun dict_update :: "('k, 'v) items \<Rightarrow> ('k, 'v) items \<Rightarrow> ('k, 'v) items" where
  "dict_update d [] = d"
| "dict_update d ((k, v) # kvs) = dict_update (setitem d k v) kvs"

text \<open>\<open>dict(other)\<close> for a dictionary \<open>other\<close>: the items of the new dictionary.\<close>

definition dict_copy :: "('k, 'v) items \<Rightarrow> ('k, 'v) items" where
  "dict_copy d = d"

text \<open>
  The two statements of the class body, as a function of the items of
  \<open>DefaultStyle.styles\<close> and of the items of \<open>color_tokens()\<close>.
\<close>

definition merge :: "('k, 'v) items \<Rightarrow> ('k, 'v) items \<Rightarrow> ('k, 'v) items" where
  "merge B ov = dict_update (dict_copy B) ov"

subsection \<open>Objects and the heap\<close>

text \<open>
  Dictionaries are mutable objects, and \<open>update\<close> changes its receiver in place. To say
  which objects a statement changes, objects live in a heap: a cell for every address and
  the next address that allocation hands out. Addresses below \<open>next_addr\<close> are the
  allocated ones. An object is a dictionary or something that \<open>dict\<close> and \<open>update\<close> do
  not accept (such as \<open>None\<close> or a number).
\<close>

datatype ('k, 'v) pyobj = PyDict "('k, 'v) items" | PyOther

record ('k, 'v) heap =
  cells :: "nat \<Rightarrow> ('k, 'v) pyobj"
  next_addr :: nat

definition alloc :: "('k, 'v) heap \<Rightarrow> ('k, 'v) pyobj \<Rightarrow> ('k, 'v) heap \<times> nat" where
  "alloc h x =
     (h\<lparr>cells := (cells h)(next_addr h := x), next_addr := Suc (next_addr h)\<rparr>, next_addr h)"

text \<open>\<open>dict(x)\<close>: a new dictionary object with the items of \<open>x\<close>.\<close>

definition dict_new :: "('k, 'v) heap \<Rightarrow> nat \<Rightarrow> error + (('k, 'v) heap \<times> nat)" where
  "dict_new h a =
     (case cells h a of
        PyDict d \<Rightarrow> Inr (alloc h (PyDict (dict_copy d)))
      | PyOther \<Rightarrow> Inl TypeError)"

text \<open>\<open>r.update(a)\<close>: the object at \<open>r\<close> is updated in place; nothing is returned.\<close>

definition update_method :: "('k, 'v) heap \<Rightarrow> nat \<Rightarrow> nat \<Rightarrow> error + ('k, 'v) heap" where
  "update_method h r a =
     (case cells h r of
        PyOther \<Rightarrow> Inl AttributeError
      | PyDict d \<Rightarrow>
          (case cells h a of
             PyOther \<Rightarrow> Inl TypeError
           | PyDict e \<Rightarrow> Inr (h\<lparr>cells := (cells h)(r := PyDict (dict_update d e))\<rparr>)))"

text \<open>
  The class body: \<open>base\<close> is the address of \<open>DefaultStyle.styles\<close>, \<open>overlay\<close> the
  address of the object that \<open>color_tokens()\<close> returns. The result is the new heap and
  the address bound to \<open>styles\<close>.
\<close>

definition DefaultAnsiStyle_styles ::
  "('k, 'v) heap \<Rightarrow> nat \<Rightarrow> nat \<Rightarrow> error + (('k, 'v) heap \<times> nat)" where
  "DefaultAnsiStyle_styles h base overlay =
     (case dict_new h base of
        Inl e \<Rightarrow> Inl e
      | Inr (h1, styles) \<Rightarrow>
          (case update_method h1 styles overlay of
             Inl e \<Rightarrow> Inl e
           | Inr h2 \<Rightarrow> Inr (h2, styles)))"

text \<open>
  The example of the specification as a heap: the base dictionary at address 0, the
  overlay dictionary at address 1, nothing else allocated.
\<close>

definition example_heap :: "(string, string) heap" where
  "example_heap =
     \<lparr>cells = (\<lambda>_. PyOther)
        (0 := PyDict [(''keyword'', ''bold blue''), (''comment'', ''italic gray'')],
         1 := PyDict [(''ansi-red'', ''red''), (''keyword'', ''bold red'')]),
      next_addr = 2\<rparr>"

subsection \<open>The iteration order, as a description\<close>

text \<open>
  A description of the merged dictionary that does not run the code: the items of the
  base in their order, each with the overlay's value when the overlay has the key,
  followed by the overlay's items whose key the base lacks, in the overlay's order.
\<close>

definition overlay_value :: "('k, 'v) items \<Rightarrow> 'k \<times> 'v \<Rightarrow> 'k \<times> 'v" where
  "overlay_value ov p = (fst p, case map_of ov (fst p) of None \<Rightarrow> snd p | Some v' \<Rightarrow> v')"

definition ordered_merge_spec :: "('k, 'v) items \<Rightarrow> ('k, 'v) items \<Rightarrow> ('k, 'v) items" where
  "ordered_merge_spec B ov =
     map (overlay_value ov) B @ filter (\<lambda>p. fst p \<notin> set (dict_keys B)) ov"

section \<open>Storing one item\<close>

lemma dict_keys_simps [simp]:
  "dict_keys [] = []" "dict_keys ((k, v) # d) = k # dict_keys d"
  by (simp_all add: dict_keys_def)

lemma dict_keys_setitem:
  "dict_keys (setitem d k v) =
     (if k \<in> set (dict_keys d) then dict_keys d else dict_keys d @ [k])"
  by (induction d) auto

lemma map_of_setitem:
  "map_of (setitem d k v) k' = (if k' = k then Some v else map_of d k')"
  by (induction d) auto

lemma setitem_twice: "setitem (setitem d k v) k v' = setitem d k v'"
  by (induction d) auto

lemma setitem_same: "map_of d k = Some v \<Longrightarrow> setitem d k v = d"
  by (induction d) (auto split: if_splits)

lemma setitem_present:
  "k \<in> set (dict_keys d) \<Longrightarrow> distinct (dict_keys d) \<Longrightarrow>
   setitem d k v = map (\<lambda>(k', v'). (k', if k' = k then v else v')) d"
  by (induction d) (auto simp: dict_keys_def rev_image_eqI intro!: map_idI [symmetric])

lemma setitem_absent: "k \<notin> set (dict_keys d) \<Longrightarrow> setitem d k v = d @ [(k, v)]"
  by (induction d) auto

lemma setitem_commute:
  "k \<in> set (dict_keys d) \<Longrightarrow> k \<noteq> k' \<Longrightarrow>
   setitem (setitem d k v) k' v' = setitem (setitem d k' v') k v"
  by (induction d) auto

lemma distinct_setitem: "distinct (dict_keys d) \<Longrightarrow> distinct (dict_keys (setitem d k v))"
  by (simp add: dict_keys_setitem)

section \<open>Updating with a dictionary\<close>

lemma set_keys_dict_update:
  "set (dict_keys (dict_update d kvs)) = set (dict_keys d) \<union> set (dict_keys kvs)"
proof (induction kvs arbitrary: d)
  case Nil
  show ?case by simp
next
  case (Cons p kvs)
  obtain k v where p: "p = (k, v)" by (cases p)
  show ?case unfolding p by (auto simp: Cons.IH dict_keys_setitem)
qed

text \<open>The result of an update is again a dictionary: its keys are distinct.\<close>

lemma distinct_dict_update:
  "distinct (dict_keys d) \<Longrightarrow> distinct (dict_keys (dict_update d kvs))"
proof (induction kvs arbitrary: d)
  case Nil
  then show ?case by simp
next
  case (Cons p kvs)
  obtain k v where p: "p = (k, v)" by (cases p)
  show ?case using Cons.prems by (simp add: p Cons.IH distinct_setitem)
qed

lemma map_of_dict_update_other:
  "k \<notin> set (dict_keys kvs) \<Longrightarrow> map_of (dict_update d kvs) k = map_of d k"
proof (induction kvs arbitrary: d)
  case Nil
  show ?case by simp
next
  case (Cons p kvs)
  obtain k' v' where p: "p = (k', v')" by (cases p)
  from Cons.prems have "k \<noteq> k'" and "k \<notin> set (dict_keys kvs)"
    by (simp_all add: p)
  then show ?case
    by (simp add: p Cons.IH map_of_setitem)
qed

lemma map_of_dict_update_overlay:
  "distinct (dict_keys kvs) \<Longrightarrow> (k, v) \<in> set kvs \<Longrightarrow>
   map_of (dict_update d kvs) k = Some v"
proof (induction kvs arbitrary: d)
  case Nil
  then show ?case by simp
next
  case (Cons p kvs)
  obtain k' v' where p: "p = (k', v')" by (cases p)
  from Cons.prems(1) have fresh: "k' \<notin> set (dict_keys kvs)"
    and dist: "distinct (dict_keys kvs)"
    by (simp_all add: p)
  show ?case
  proof (cases "(k, v) = (k', v')")
    case True
    then show ?thesis
      using fresh by (simp add: p map_of_dict_update_other map_of_setitem)
  next
    case False
    with Cons.prems(2) have "(k, v) \<in> set kvs" by (auto simp: p)
    then show ?thesis by (simp add: p Cons.IH [OF dist])
  qed
qed

lemma dict_update_fresh:
  "distinct (dict_keys (d @ kvs)) \<Longrightarrow> dict_update d kvs = d @ kvs"
proof (induction kvs arbitrary: d)
  case Nil
  show ?case by simp
next
  case (Cons p kvs)
  obtain k v where p: "p = (k, v)" by (cases p)
  from Cons.prems have "k \<notin> set (dict_keys d)"
    and "distinct (dict_keys ((d @ [(k, v)]) @ kvs))"
    by (auto simp: p dict_keys_def)
  then show ?case
    using Cons.IH [of "d @ [(k, v)]"] by (simp add: p setitem_absent)
qed

text \<open>
  Storing under a key that is present and then updating: the stored value is overwritten
  when the update mentions the key, and can be stored afterwards when it does not.
\<close>

lemma dict_update_setitem:
  "k \<in> set (dict_keys d) \<Longrightarrow>
   dict_update (setitem d k v) kvs =
     (if k \<in> set (dict_keys kvs) then dict_update d kvs
      else setitem (dict_update d kvs) k v)"
proof (induction kvs arbitrary: d)
  case Nil
  show ?case by simp
next
  case (Cons p kvs)
  obtain k' v' where p: "p = (k', v')" by (cases p)
  show ?case
  proof (cases "k' = k")
    case True
    then show ?thesis by (simp add: p setitem_twice)
  next
    case False
    have mem: "k \<in> set (dict_keys (setitem d k' v'))"
      using Cons.prems by (simp add: dict_keys_setitem)
    have "dict_update (setitem d k v) (p # kvs) =
          dict_update (setitem (setitem d k' v') k v) kvs"
      using False setitem_commute [OF Cons.prems, of k' v v'] by (simp add: p)
    also have "\<dots> =
        (if k \<in> set (dict_keys kvs) then dict_update (setitem d k' v') kvs
         else setitem (dict_update (setitem d k' v') kvs) k v)"
      by (rule Cons.IH [OF mem])
    finally show ?thesis using False by (simp add: p)
  qed
qed

lemma dict_update_idem: "dict_update (dict_update d kvs) kvs = dict_update d kvs"
proof (induction kvs arbitrary: d)
  case Nil
  show ?case by simp
next
  case (Cons p kvs)
  obtain k v where p: "p = (k, v)" by (cases p)
  define D where "D = dict_update (setitem d k v) kvs"
  have mem: "k \<in> set (dict_keys D)"
    by (simp add: D_def set_keys_dict_update dict_keys_setitem)
  have fixed: "dict_update D kvs = D"
    unfolding D_def by (rule Cons.IH)
  have "dict_update D (p # kvs) = D"
  proof (cases "k \<in> set (dict_keys kvs)")
    case True
    then show ?thesis by (simp add: p dict_update_setitem [OF mem] fixed)
  next
    case False
    then have "map_of D k = Some v"
      by (simp add: D_def map_of_dict_update_other map_of_setitem)
    then have "setitem D k v = D" by (rule setitem_same)
    with False show ?thesis by (simp add: p dict_update_setitem [OF mem] fixed)
  qed
  then show ?case by (simp add: p D_def)
qed

lemma dict_update_shape:
  "distinct (dict_keys d) \<Longrightarrow> distinct (dict_keys kvs) \<Longrightarrow>
   dict_update d kvs =
     map (overlay_value kvs) d @ filter (\<lambda>p. fst p \<notin> set (dict_keys d)) kvs"
proof (induction kvs arbitrary: d)
  case Nil
  show ?case by (simp add: overlay_value_def)
next
  case (Cons p kvs)
  obtain k v where p: "p = (k, v)" by (cases p)
  from Cons.prems(2) have fresh: "k \<notin> set (dict_keys kvs)"
    and dist: "distinct (dict_keys kvs)"
    by (simp_all add: p)
  have nokey: "map_of kvs k = None"
    using fresh by (simp add: map_of_eq_None_iff dict_keys_def)
  have IH: "dict_update (setitem d k v) kvs =
      map (overlay_value kvs) (setitem d k v) @
      filter (\<lambda>p. fst p \<notin> set (dict_keys (setitem d k v))) kvs"
    by (rule Cons.IH [OF distinct_setitem [OF Cons.prems(1)] dist])
  show ?case
  proof (cases "k \<in> set (dict_keys d)")
    case True
    have a: "map (overlay_value kvs) (setitem d k v) = map (overlay_value (p # kvs)) d"
      using nokey
      by (simp add: setitem_present [OF True Cons.prems(1)] p overlay_value_def split_def
          split: option.splits)
    show ?thesis using True by (simp add: p IH a [unfolded p] dict_keys_setitem)
  next
    case False
    have a: "map (overlay_value kvs) d = map (overlay_value (p # kvs)) d"
      using False by (auto simp: p overlay_value_def dict_keys_def)
    have b: "filter (\<lambda>p. fst p \<notin> set (dict_keys (d @ [(k, v)]))) kvs
           = filter (\<lambda>p. fst p \<notin> set (dict_keys d)) kvs"
      using fresh by (auto simp: dict_keys_def intro!: filter_cong)
    have c: "overlay_value kvs (k, v) = (k, v)"
      using nokey by (simp add: overlay_value_def)
    have "dict_update d (p # kvs) = dict_update (d @ [(k, v)]) kvs"
      by (simp add: p setitem_absent [OF False])
    also have "\<dots> = map (overlay_value kvs) (d @ [(k, v)]) @
                     filter (\<lambda>p. fst p \<notin> set (dict_keys (d @ [(k, v)]))) kvs"
      using IH by (simp only: setitem_absent [OF False])
    also have "\<dots> = map (overlay_value (p # kvs)) d @ (k, v) #
                     filter (\<lambda>p. fst p \<notin> set (dict_keys d)) kvs"
      by (simp only: b map_append list.map a c append_assoc append_Cons append_Nil)
    also have "\<dots> = map (overlay_value (p # kvs)) d @
                     filter (\<lambda>p. fst p \<notin> set (dict_keys d)) (p # kvs)"
      using False by (simp add: p)
    finally show ?thesis .
  qed
qed

lemma key_has_item: "k \<in> set (dict_keys d) \<Longrightarrow> \<exists>v. (k, v) \<in> set d"
  by (auto simp: dict_keys_def)

lemma map_of_item:
  "distinct (dict_keys d) \<Longrightarrow> (k, v) \<in> set d \<Longrightarrow> map_of d k = Some v"
  by (simp add: dict_keys_def)

section \<open>The class body on the heap\<close>

text \<open>
  When \<open>base\<close> and \<open>overlay\<close> are allocated dictionaries, the class body allocates one
  object, at the next free address, and leaves the merged items there.
\<close>

lemma dict_new_dict:
  "cells h base = PyDict B \<Longrightarrow>
   dict_new h base =
     Inr (h\<lparr>cells := (cells h)(next_addr h := PyDict B), next_addr := Suc (next_addr h)\<rparr>,
          next_addr h)"
  by (simp add: dict_new_def alloc_def dict_copy_def)

lemma styles_result:
  assumes "base < next_addr h" and "overlay < next_addr h"
    and "cells h base = PyDict B" and "cells h overlay = PyDict ov"
  shows "DefaultAnsiStyle_styles h base overlay =
     Inr (h\<lparr>cells := (cells h)(next_addr h := PyDict (merge B ov)),
            next_addr := Suc (next_addr h)\<rparr>, next_addr h)"
  using assms
  by (simp add: DefaultAnsiStyle_styles_def dict_new_dict update_method_def merge_def dict_copy_def)

lemma example_heap_simps:
  "next_addr example_heap = 2"
  "cells example_heap 0 = PyDict [(''keyword'', ''bold blue''), (''comment'', ''italic gray'')]"
  "cells example_heap (Suc 0) = PyDict [(''ansi-red'', ''red''), (''keyword'', ''bold red'')]"
  by (simp_all add: example_heap_def)

section \<open>Properties of the merged dictionary\<close>

text \<open>
  Claim C1. For every base dictionary \<open>B\<close> and overlay dictionary \<open>ov\<close>, the set of keys
  of the merged dictionary is the union of the keys of \<open>B\<close> and the keys of \<open>ov\<close>.
\<close>

theorem merge_keys_union:
  "set (dict_keys (merge B ov)) = set (dict_keys B) \<union> set (dict_keys ov)"
  by (simp add: merge_def dict_copy_def set_keys_dict_update)

text \<open>
  Claim C2. For every key \<open>k\<close> of the overlay, looking \<open>k\<close> up in the merged dictionary
  gives the overlay's value for \<open>k\<close>, whether or not the base has the key too; the
  look-up does not raise. The overlay is a dictionary: its keys are distinct.
\<close>

theorem merge_overlay_wins:
  assumes "distinct (dict_keys ov)" and "k \<in> set (dict_keys ov)"
  shows "getitem (merge B ov) k = getitem ov k \<and> getitem ov k \<noteq> Inl KeyError"
proof -
  from assms(2) obtain v where item: "(k, v) \<in> set ov"
    using key_has_item by fastforce
  have "map_of ov k = Some v"
    using assms(1) item by (rule map_of_item)
  moreover have "map_of (merge B ov) k = Some v"
    unfolding merge_def using assms(1) item by (rule map_of_dict_update_overlay)
  ultimately show ?thesis by (simp add: getitem_def)
qed

theorem merge_overlay_wins_witness:
  "distinct (dict_keys [(''ansi-red'', ''red''), (''keyword'', ''bold red'')])
   \<and> ''keyword'' \<in> set (dict_keys [(''ansi-red'', ''red''), (''keyword'', ''bold red'')])
   \<and> getitem (merge [(''keyword'', ''bold blue''), (''comment'', ''italic gray'')]
         [(''ansi-red'', ''red''), (''keyword'', ''bold red'')]) ''keyword''
       = (Inr ''bold red'' :: error + string)"
proof -
  let ?ov = "[(''ansi-red'', ''red''), (''keyword'', ''bold red'')]"
  have d: "distinct (dict_keys ?ov)" by simp
  have m: "''keyword'' \<in> set (dict_keys ?ov)" by simp
  have g: "getitem ?ov ''keyword'' = (Inr ''bold red'' :: error + string)"
    by (simp add: getitem_def)
  show ?thesis
    using d m g
      merge_overlay_wins [OF d m, of "[(''keyword'', ''bold blue''), (''comment'', ''italic gray'')]"]
    by simp
qed

text \<open>
  Claim C3. For every key \<open>k\<close> that the base has and the overlay lacks, looking \<open>k\<close> up
  in the merged dictionary gives the base's value for \<open>k\<close>; the look-up does not raise.
\<close>

theorem merge_base_survives:
  assumes "k \<in> set (dict_keys B)" and "k \<notin> set (dict_keys ov)"
  shows "getitem (merge B ov) k = getitem B k \<and> getitem B k \<noteq> Inl KeyError"
proof -
  have "map_of (merge B ov) k = map_of B k"
    unfolding merge_def dict_copy_def using assms(2) by (rule map_of_dict_update_other)
  moreover have "map_of B k \<noteq> None"
    using assms(1) by (simp add: map_of_eq_None_iff dict_keys_def)
  ultimately show ?thesis by (auto simp: getitem_def split: option.splits)
qed

theorem merge_base_survives_witness:
  "''comment'' \<in> set (dict_keys [(''keyword'', ''bold blue''), (''comment'', ''italic gray'')])
   \<and> ''comment'' \<notin> set (dict_keys [(''ansi-red'', ''red''), (''keyword'', ''bold red'')])
   \<and> getitem (merge [(''keyword'', ''bold blue''), (''comment'', ''italic gray'')]
         [(''ansi-red'', ''red''), (''keyword'', ''bold red'')]) ''comment''
       = (Inr ''italic gray'' :: error + string)"
proof -
  let ?B = "[(''keyword'', ''bold blue''), (''comment'', ''italic gray'')]"
  let ?ov = "[(''ansi-red'', ''red''), (''keyword'', ''bold red'')]"
  have m: "''comment'' \<in> set (dict_keys ?B)" by simp
  have n: "''comment'' \<notin> set (dict_keys ?ov)" by simp
  have g: "getitem ?B ''comment'' = (Inr ''italic gray'' :: error + string)"
    by (simp add: getitem_def)
  show ?thesis
    using m n g merge_base_survives [OF m n] by simp
qed

text \<open>
  Claim C4. Merging the same overlay a second time changes nothing: the result has the
  same items in the same order, so it is in particular the same mapping.
\<close>

theorem merge_idempotent: "merge (merge B ov) ov = merge B ov"
  by (simp add: merge_def dict_copy_def dict_update_idem)

text \<open>
  Claim C5. The empty dictionary is a right identity: merging an empty overlay into
  \<open>B\<close> gives the items of \<open>B\<close>.
\<close>

theorem merge_empty_overlay: "merge B [] = B"
  by (simp add: merge_def dict_copy_def)

text \<open>
  Claim C6. The empty dictionary is a left identity: merging an overlay dictionary into
  an empty base gives the items of the overlay, in the overlay's order.
\<close>

theorem merge_empty_base:
  assumes "distinct (dict_keys ov)"
  shows "merge [] ov = ov"
  using dict_update_fresh [of "[]" ov] assms by (simp add: merge_def dict_copy_def)

theorem merge_empty_base_witness:
  "distinct (dict_keys [(''ansi-red'', ''red''), (''keyword'', ''bold red'')])
   \<and> merge [] [(''ansi-red'', ''red''), (''keyword'', ''bold red'')]
       = [(''ansi-red'', ''red''), (''keyword'', ''bold red'')]"
proof -
  have d: "distinct (dict_keys [(''ansi-red'', ''red''), (''keyword'', ''bold red'')])"
    by simp
  show ?thesis using d merge_empty_base [OF d] by simp
qed

text \<open>
  Claim C7. The example of the specification: the base maps \<open>keyword\<close> to \<open>bold blue\<close>
  and \<open>comment\<close> to \<open>italic gray\<close>, the overlay maps \<open>ansi-red\<close> to \<open>red\<close> and
  \<open>keyword\<close> to \<open>bold red\<close>; the merged dictionary maps \<open>keyword\<close> to \<open>bold red\<close>,
  \<open>comment\<close> to \<open>italic gray\<close> and \<open>ansi-red\<close> to \<open>red\<close>.
\<close>

theorem merge_example:
  "merge [(''keyword'', ''bold blue''), (''comment'', ''italic gray'')]
         [(''ansi-red'', ''red''), (''keyword'', ''bold red'')]
   = [(''keyword'', ''bold red''), (''comment'', ''italic gray''), (''ansi-red'', ''red'')]"
  by (simp add: merge_def dict_copy_def)

text \<open>
  Claim C8. The merge has no effect on its inputs. When the base and the overlay are
  allocated dictionaries (they may be the same object), the class body succeeds, the
  object it returns is newly allocated (its address was free before and differs from
  both inputs), and every object that was allocated before, the base and the overlay
  among them, is the same afterwards: only the new object is written.
\<close>

theorem styles_frame:
  assumes "base < next_addr h" and "overlay < next_addr h"
    and "cells h base = PyDict B" and "cells h overlay = PyDict ov"
  shows "\<exists>h' r. DefaultAnsiStyle_styles h base overlay = Inr (h', r)
       \<and> cells h' base = PyDict B \<and> cells h' overlay = PyDict ov
       \<and> r \<noteq> base \<and> r \<noteq> overlay \<and> next_addr h \<le> r
       \<and> (\<forall>a < next_addr h. cells h' a = cells h a)"
  using assms by (simp add: styles_result [OF assms])

theorem styles_frame_witness:
  "\<exists>h' r. DefaultAnsiStyle_styles example_heap 0 1 = Inr (h', r)
     \<and> cells h' 0 = PyDict [(''keyword'', ''bold blue''), (''comment'', ''italic gray'')]
     \<and> cells h' 1 = PyDict [(''ansi-red'', ''red''), (''keyword'', ''bold red'')]
     \<and> r \<noteq> 0 \<and> r \<noteq> 1 \<and> 2 \<le> r
     \<and> cells h' 0 = cells example_heap 0 \<and> cells h' 1 = cells example_heap 1"
proof -
  have a: "(0::nat) < next_addr example_heap" and b: "(1::nat) < next_addr example_heap"
    by (simp_all add: example_heap_simps)
  have c: "cells example_heap 0 = PyDict [(''keyword'', ''bold blue''), (''comment'', ''italic gray'')]"
    and d: "cells example_heap 1 = PyDict [(''ansi-red'', ''red''), (''keyword'', ''bold red'')]"
    by (simp_all add: example_heap_simps)
  from styles_frame [OF a b c d] obtain h' r where
    res: "DefaultAnsiStyle_styles example_heap 0 1 = Inr (h', r)"
    and keep: "cells h' 0 = PyDict [(''keyword'', ''bold blue''), (''comment'', ''italic gray'')]"
      "cells h' 1 = PyDict [(''ansi-red'', ''red''), (''keyword'', ''bold red'')]"
    and fresh: "r \<noteq> 0" "r \<noteq> 1" "next_addr example_heap \<le> r"
    by blast
  from fresh(3) have "2 \<le> r" by (simp add: example_heap_simps)
  with res keep fresh c d show ?thesis by auto
qed

text \<open>
  Claim C9. The merge is total. \<open>merge\<close> is a total function, by recursion over the
  finite list of the overlay's items, and the class body has no error branch on
  dictionaries: whenever the base and the overlay are allocated dictionaries, it returns
  a heap and an address, and the object at that address is the merged dictionary.
\<close>

theorem styles_total:
  assumes "base < next_addr h" and "overlay < next_addr h"
    and "cells h base = PyDict B" and "cells h overlay = PyDict ov"
  shows "\<exists>h' r. DefaultAnsiStyle_styles h base overlay = Inr (h', r)
            \<and> cells h' r = PyDict (merge B ov)"
  by (simp add: styles_result [OF assms])

theorem styles_total_witness:
  "\<exists>h' r. DefaultAnsiStyle_styles example_heap 0 1 = Inr (h', r)
     \<and> cells h' r = PyDict (merge [(''keyword'', ''bold blue''), (''comment'', ''italic gray'')]
                                  [(''ansi-red'', ''red''), (''keyword'', ''bold red'')])"
proof -
  have a: "(0::nat) < next_addr example_heap" and b: "(1::nat) < next_addr example_heap"
    by (simp_all add: example_heap_simps)
  have c: "cells example_heap 0 = PyDict [(''keyword'', ''bold blue''), (''comment'', ''italic gray'')]"
    and d: "cells example_heap 1 = PyDict [(''ansi-red'', ''red''), (''keyword'', ''bold red'')]"
    by (simp_all add: example_heap_simps)
  show ?thesis by (rule styles_total [OF a b c d])
qed

text \<open>
  Claim C10. The iteration order of the merged dictionary is determined: first the keys
  of the base in the base's order, a shared key keeping its place and taking the
  overlay's value, then the overlay's keys that the base lacks, in the overlay's order.
  Base and overlay are dictionaries: their keys are distinct.
\<close>

theorem merge_order:
  assumes "distinct (dict_keys B)" and "distinct (dict_keys ov)"
  shows "merge B ov = ordered_merge_spec B ov
       \<and> dict_keys (merge B ov)
           = dict_keys B @ filter (\<lambda>k. k \<notin> set (dict_keys B)) (dict_keys ov)"
proof -
  have eq: "merge B ov = ordered_merge_spec B ov"
    unfolding merge_def dict_copy_def ordered_merge_spec_def
    using assms by (rule dict_update_shape)
  have "dict_keys (ordered_merge_spec B ov)
      = dict_keys B @ filter (\<lambda>k. k \<notin> set (dict_keys B)) (dict_keys ov)"
    by (simp add: ordered_merge_spec_def dict_keys_def overlay_value_def filter_map comp_def)
  with eq show ?thesis by simp
qed

theorem merge_order_witness:
  "distinct (dict_keys [(''keyword'', ''bold blue''), (''comment'', ''italic gray'')])
   \<and> distinct (dict_keys [(''ansi-red'', ''red''), (''keyword'', ''bold red'')])
   \<and> dict_keys (merge [(''keyword'', ''bold blue''), (''comment'', ''italic gray'')]
         [(''ansi-red'', ''red''), (''keyword'', ''bold red'')])
       = [''keyword'', ''comment'', ''ansi-red'']"
proof -
  let ?B = "[(''keyword'', ''bold blue''), (''comment'', ''italic gray'')]"
  let ?ov = "[(''ansi-red'', ''red''), (''keyword'', ''bold red'')]"
  have b: "distinct (dict_keys ?B)" by simp
  have d: "distinct (dict_keys ?ov)" by simp
  show ?thesis using b d merge_order [OF b d, THEN conjunct2] by simp
qed

end
